theory Spec2Isabelle
  imports Complex_Main
begin

section \<open>Status classifier and price movement (price\_tracker.py)\<close>

text \<open>
  Python floats are modelled as real numbers: comparisons, \<open>abs\<close> and negation are exact
  on floats, while the rounding of \<open>+\<close>, \<open>-\<close>, \<open>*\<close> and \<open>/\<close> to the nearest double
  is not modelled. The status strings 'PENDING', 'HIT', 'PARTIAL' and 'MISS' are the only
  values the program ever writes into the status column; they form a datatype.
\<close>

datatype status = PENDING | HIT | PARTIAL | MISS

text \<open>
  \<open>round(x, 2)\<close> of Python: the nearest multiple of 1/100, a tie going to the even
  multiple.
\<close>

definition py_round2 :: "real \<Rightarrow> real" where
  "py_round2 x =
     (let y = x * 100;
          f = \<lfloor>y\<rfloor>;
          d = y - of_int f
      in (if d < 1 / 2 then of_int f
          else if 1 / 2 < d then of_int (f + 1)
          else if even f then of_int f
          else of_int (f + 1)) / 100)"

text \<open>\<open>PriceTracker.calculate_movement\<close>: the early return on a zero baseline, then the formula.\<close>

definition calculate_movement :: "real \<Rightarrow> real \<Rightarrow> real" where
  "calculate_movement previous_close current_price =
     (if previous_close = 0 then 0
      else let movement = ((current_price - previous_close) / previous_close) * 100
           in py_round2 movement)"

text \<open>
  \<open>PriceTracker.determine_status\<close>. Each \<open>return\<close> of the source is one branch, in the
  source's order; the \<open>direction\<close> parameter (a Python \<open>str\<close>) is received and, as in the source, not
  read.
\<close>

definition determine_status :: "real \<Rightarrow> real \<Rightarrow> string \<Rightarrow> bool \<Rightarrow> status" where
  "determine_status claimed_percentage actual_movement_pct direction is_market_closed =
     (let claimed_direction = (if claimed_percentage > 0 then ''up'' else ''down'');
          actual_direction = (if actual_movement_pct > 0 then ''up'' else ''down'')
      in if claimed_direction \<noteq> actual_direction \<and> is_market_closed then MISS
         else let gap = \<bar>\<bar>claimed_percentage\<bar> - \<bar>actual_movement_pct\<bar>\<bar>
              in if gap \<le> 5 \<and> claimed_direction = actual_direction then HIT
                 else if gap \<le> 10 \<and> claimed_direction = actual_direction
                      then (if is_market_closed then PARTIAL else PENDING)
                 else if is_market_closed then MISS
                 else PENDING)"

text \<open>
  The transition function as section 4.4 of the specification words it, rule by rule, over
  the two direction flags (\<open>True\<close> for up) and the gap.
\<close>

definition spec_claimed_up :: "real \<Rightarrow> bool" where
  "spec_claimed_up c = (c > 0)"

definition spec_actual_up :: "real \<Rightarrow> bool" where
  "spec_actual_up a = (a > 0)"

definition spec_gap :: "real \<Rightarrow> real \<Rightarrow> real" where
  "spec_gap c a = \<bar>\<bar>c\<bar> - \<bar>a\<bar>\<bar>"

fun spec_rules :: "bool \<Rightarrow> bool \<Rightarrow> real \<Rightarrow> bool \<Rightarrow> status" where
  "spec_rules cu au gap m =
     (if cu \<noteq> au \<and> m then MISS
      else if gap \<le> 5 \<and> cu = au then HIT
      else if gap \<le> 10 \<and> cu = au then (if m then PARTIAL else PENDING)
      else if m then MISS
      else PENDING)"

definition classify_spec :: "real \<Rightarrow> real \<Rightarrow> string \<Rightarrow> bool \<Rightarrow> status" where
  "classify_spec c a d m = spec_rules (spec_claimed_up c) (spec_actual_up a) (spec_gap c a) m"

section \<open>Prediction store (database.py)\<close>

text \<open>
  A candidate record as the scraper hands it over, and the row of the \<open>articles\<close> table
  that \<open>add_article\<close> makes of it: the row adds the AUTOINCREMENT key, the status, the
  duplicate flag and the collection date.
\<close>

record raw_article =
  ticker :: string
  claimed_percentage :: real
  direction :: string
  article_timestamp :: string
  source_name :: string
  article_url :: string
  headline :: string

record article = raw_article +
  art_id :: nat
  status :: status
  is_duplicate :: bool
  collection_date :: string

record price_snapshot =
  snap_article_id :: nat
  snap_previous_close :: real
  snap_current_price :: real
  snap_actual_movement_pct :: real
  snap_gap :: real

text \<open>
  The database: the rows of \<open>articles\<close> in rowid order, the AUTOINCREMENT counter of that
  table (the largest key ever handed out) and the rows of \<open>price_snapshots\<close>. The
  \<open>check_timestamp\<close> column of a snapshot is read from the wall clock and is left out.
\<close>

record database =
  articles :: "article list"
  article_seq :: nat
  price_snapshots :: "price_snapshot list"

definition init_database :: database where
  "init_database = \<lparr>articles = [], article_seq = 0, price_snapshots = []\<rparr>"

text \<open>
  \<open>Database.add_article\<close>. The UNIQUE constraint on \<open>article_url\<close> raises
  \<open>sqlite3.IntegrityError\<close>, which the source turns into \<open>None\<close> with nothing committed;
  otherwise the row is appended with status 'PENDING', the column default 0 for
  \<open>is_duplicate\<close> and the next key, and \<open>cursor.lastrowid\<close> is returned. The second
  handler of the source, \<open>except Exception\<close>, also returns \<open>None\<close>, after printing a
  message; it answers a failure of the database itself, which the model does not have.
\<close>

definition add_article ::
  "database \<Rightarrow> string \<Rightarrow> real \<Rightarrow> string \<Rightarrow> string \<Rightarrow> string \<Rightarrow> string \<Rightarrow> string \<Rightarrow> string
     \<Rightarrow> database \<times> nat option" where
  "add_article db tk pct dir ts src url hl cdate =
     (if url \<in> set (map article_url (articles db)) then (db, None)
      else let article_id = Suc (article_seq db);
               row = \<lparr>ticker = tk, claimed_percentage = pct, direction = dir,
                      article_timestamp = ts, source_name = src, article_url = url,
                      headline = hl, art_id = article_id, status = PENDING,
                      is_duplicate = False, collection_date = cdate\<rparr>
           in (db\<lparr>articles := articles db @ [row], article_seq := article_id\<rparr>,
               Some article_id))"

definition add_price_snapshot :: "database \<Rightarrow> nat \<Rightarrow> real \<Rightarrow> real \<Rightarrow> real \<Rightarrow> real \<Rightarrow> database" where
  "add_price_snapshot db article_id pc cp mv g =
     db\<lparr>price_snapshots := price_snapshots db @
        [\<lparr>snap_article_id = article_id, snap_previous_close = pc, snap_current_price = cp,
          snap_actual_movement_pct = mv, snap_gap = g\<rparr>]\<rparr>"

text \<open>\<open>UPDATE articles SET status = ? WHERE id = ?\<close>\<close>

definition update_article_status :: "database \<Rightarrow> nat \<Rightarrow> status \<Rightarrow> database" where
  "update_article_status db article_id st =
     db\<lparr>articles := map (\<lambda>a. if art_id a = article_id then a\<lparr>status := st\<rparr> else a)
                         (articles db)\<rparr>"

text \<open>\<open>UPDATE articles SET is_duplicate = 1 WHERE id = ?\<close>\<close>

definition mark_as_duplicate :: "database \<Rightarrow> nat \<Rightarrow> database" where
  "mark_as_duplicate db article_id =
     db\<lparr>articles := map (\<lambda>a. if art_id a = article_id then a\<lparr>is_duplicate := True\<rparr> else a)
                         (articles db)\<rparr>"

text \<open>\<open>SELECT ... FROM articles WHERE status = 'PENDING'\<close>, with no LIMIT.\<close>

definition get_pending_articles :: "database \<Rightarrow> article list" where
  "get_pending_articles db = filter (\<lambda>a. status a = PENDING) (articles db)"

subsection \<open>Duplicate detection\<close>

text \<open>
  What \<open>datetime.fromisoformat\<close> returns: a naive datetime, or an aware one. Both are
  counted in microseconds, an aware one in UTC. Subtracting a naive and an aware datetime
  raises \<open>TypeError\<close>. The parser itself is a library function and a parameter of the
  model: \<open>None\<close> stands for the exception it raises on a string it cannot parse.
\<close>

datatype datetime = Naive int | Aware int

datatype py_error = ValueError | TypeError

fun datetime_sub :: "datetime \<Rightarrow> datetime \<Rightarrow> py_error + int" where
  "datetime_sub (Naive a) (Naive b) = Inr (a - b)"
| "datetime_sub (Aware a) (Aware b) = Inr (a - b)"
| "datetime_sub (Naive a) (Aware b) = Inl TypeError"
| "datetime_sub (Aware a) (Naive b) = Inl TypeError"

text \<open>\<open>timedelta.total_seconds()\<close> of a difference given in microseconds.\<close>

definition total_seconds :: "int \<Rightarrow> real" where
  "total_seconds us = of_int us / 1000000"

text \<open>
  The body of the \<open>try\<close> in the loop of \<open>check_for_duplicates\<close>: the hours between the
  new article and an existing row, or the exception raised on the way.
\<close>

definition time_diff_hours ::
  "(string \<Rightarrow> datetime option) \<Rightarrow> datetime \<Rightarrow> string \<Rightarrow> py_error + real" where
  "time_diff_hours fromisoformat article_time existing_timestamp =
     (case fromisoformat existing_timestamp of
        None \<Rightarrow> Inl ValueError
      | Some existing_time \<Rightarrow>
          (case datetime_sub article_time existing_time of
             Inl e \<Rightarrow> Inl e
           | Inr d \<Rightarrow> Inr \<bar>total_seconds d / 3600\<bar>))"

text \<open>The loop over the selected rows; the bare \<open>except: continue\<close> skips a row.\<close>

fun scan_duplicates ::
  "(string \<Rightarrow> datetime option) \<Rightarrow> datetime \<Rightarrow> article list \<Rightarrow> nat list" where
  "scan_duplicates fromisoformat article_time [] = []"
| "scan_duplicates fromisoformat article_time (row # rows) =
     (case time_diff_hours fromisoformat article_time (article_timestamp row) of
        Inl e \<Rightarrow> scan_duplicates fromisoformat article_time rows
      | Inr time_diff \<Rightarrow>
          (if time_diff \<le> 2
           then art_id row # scan_duplicates fromisoformat article_time rows
           else scan_duplicates fromisoformat article_time rows))"

text \<open>
  \<open>Database.check_for_duplicates\<close>. A timestamp of the new article that does not parse is
  replaced by \<open>datetime.now()\<close>, a naive datetime (the parameter \<open>now\<close>, in microseconds).
  The SQL query selects on ticker, collection date and \<open>ABS(claimed_percentage - ?) <= 3\<close>.
\<close>

definition check_for_duplicates ::
  "(string \<Rightarrow> datetime option) \<Rightarrow> int \<Rightarrow> database \<Rightarrow> string \<Rightarrow> real \<Rightarrow> string \<Rightarrow> string
     \<Rightarrow> nat list" where
  "check_for_duplicates fromisoformat now db tk pct ts cdate =
     (let article_time = (case fromisoformat ts of Some t \<Rightarrow> t | None \<Rightarrow> Naive now);
          rows = filter (\<lambda>a. ticker a = tk \<and> collection_date a = cdate
                              \<and> \<bar>claimed_percentage a - pct\<bar> \<le> 3) (articles db)
      in scan_duplicates fromisoformat article_time rows)"




section \<open>The two cycles (app.py)\<close>

text \<open>
  The price oracle: \<open>get_previous_close\<close> and \<open>get_current_price\<close> ask the market-data
  service and are parameters of the model. Their answers may change from one call to the
  next, so they also take the position of the article in the cycle's loop.
\<close>

record price_oracle =
  get_previous_close :: "nat \<Rightarrow> string \<Rightarrow> real option"
  get_current_price :: "nat \<Rightarrow> string \<Rightarrow> real option"

record price_data =
  previous_close :: real
  current_price :: real
  actual_movement_pct :: real

text \<open>\<open>PriceTracker.get_price_data\<close>\<close>

definition get_price_data :: "price_oracle \<Rightarrow> nat \<Rightarrow> string \<Rightarrow> price_data option" where
  "get_price_data orc k tk =
     (case get_previous_close orc k tk of
        None \<Rightarrow> None
      | Some pc \<Rightarrow>
          (case get_current_price orc k tk of
             None \<Rightarrow> None
           | Some cp \<Rightarrow>
               Some \<lparr>previous_close = pc, current_price = cp,
                     actual_movement_pct = calculate_movement pc cp\<rparr>))"

text \<open>
  The loop of \<open>update_prices\<close> over the list fetched before the loop; the state is the
  database and \<open>updated_count\<close>.
\<close>

fun update_loop ::
  "price_oracle \<Rightarrow> bool \<Rightarrow> nat \<Rightarrow> article list \<Rightarrow> database \<times> nat \<Rightarrow> database \<times> nat" where
  "update_loop orc is_market_closed k [] (db, updated_count) = (db, updated_count)"
| "update_loop orc is_market_closed k (a # pending) (db, updated_count) =
     (case get_price_data orc k (ticker a) of
        None \<Rightarrow> update_loop orc is_market_closed (Suc k) pending (db, updated_count)
      | Some pd \<Rightarrow>
          (let gap = claimed_percentage a - actual_movement_pct pd;
               db1 = add_price_snapshot db (art_id a) (previous_close pd) (current_price pd)
                       (actual_movement_pct pd) gap;
               st = determine_status (claimed_percentage a) (actual_movement_pct pd)
                       (direction a) is_market_closed;
               db2 = update_article_status db1 (art_id a) st
           in update_loop orc is_market_closed (Suc k) pending (db2, Suc updated_count)))"

text \<open>
  \<open>update_prices\<close>: one refresh cycle. \<open>is_market_closed\<close> is what
  \<open>price_tracker.is_market_closed()\<close> reads off the clock once, before the loop.
\<close>

definition update_prices :: "price_oracle \<Rightarrow> bool \<Rightarrow> database \<Rightarrow> database \<times> nat" where
  "update_prices orc is_market_closed db =
     update_loop orc is_market_closed 0 (get_pending_articles db) (db, 0)"

text \<open>
  The environment of a collection cycle: the ticker validation of the price tracker, the
  ISO parser, the clock and today's date.
\<close>

record collect_env =
  validate_ticker :: "string \<Rightarrow> bool"
  fromisoformat_of :: "string \<Rightarrow> datetime option"
  now_of :: int
  today_of :: string

record counters =
  added_count :: nat
  duplicate_count :: nat
  invalid_count :: nat

text \<open>
  The body of the loop of \<open>collect_articles\<close> for one candidate. \<open>if article_id:\<close> is
  Python truthiness: an id that is not \<open>None\<close> and not 0.
\<close>

definition collect_one :: "collect_env \<Rightarrow> raw_article \<Rightarrow> database \<times> counters \<Rightarrow> database \<times> counters" where
  "collect_one env r s =
     (let db = fst s; c = snd s
      in if \<not> validate_ticker env (ticker r)
         then (db, c\<lparr>invalid_count := invalid_count c + 1\<rparr>)
         else let duplicates = check_for_duplicates (fromisoformat_of env) (now_of env) db
                                 (ticker r) (claimed_percentage r) (article_timestamp r)
                                 (today_of env);
                  res = add_article db (ticker r) (claimed_percentage r) (direction r)
                          (article_timestamp r) (source_name r) (article_url r) (headline r)
                          (today_of env);
                  db1 = fst res
              in (case snd res of
                    None \<Rightarrow> (db1, c\<lparr>duplicate_count := duplicate_count c + 1\<rparr>)
                  | Some article_id \<Rightarrow>
                      if article_id \<noteq> 0
                      then (if duplicates \<noteq> []
                            then (mark_as_duplicate db1 article_id,
                                  c\<lparr>added_count := added_count c + 1,
                                    duplicate_count := duplicate_count c + 1\<rparr>)
                            else (db1, c\<lparr>added_count := added_count c + 1\<rparr>))
                      else (db1, c\<lparr>duplicate_count := duplicate_count c + 1\<rparr>)))"

definition zero_counters :: counters where
  "zero_counters = \<lparr>added_count = 0, duplicate_count = 0, invalid_count = 0\<rparr>"

text \<open>\<open>collect_articles\<close>: one collection cycle over the scraped candidates.\<close>

definition collect_articles :: "collect_env \<Rightarrow> raw_article list \<Rightarrow> database \<Rightarrow> database \<times> counters" where
  "collect_articles env scraped db = foldl (\<lambda>s r. collect_one env r s) (db, zero_counters) scraped"

text \<open>A run of the application: collection and refresh cycles in any order.\<close>

datatype cycle = Collect collect_env "raw_article list" | Refresh price_oracle bool

fun run_cycle :: "cycle \<Rightarrow> database \<Rightarrow> database" where
  "run_cycle (Collect env scraped) db = fst (collect_articles env scraped db)"
| "run_cycle (Refresh orc is_market_closed) db = fst (update_prices orc is_market_closed db)"

fun run_cycles :: "cycle list \<Rightarrow> database \<Rightarrow> database" where
  "run_cycles [] db = db"
| "run_cycles (c # cs) db = run_cycles cs (run_cycle c db)"

text \<open>
  The integrity of the \<open>articles\<close> table that SQLite maintains: the primary keys are
  distinct and none exceeds the AUTOINCREMENT counter, and the URLs are distinct.
\<close>

definition store_ok :: "database \<Rightarrow> bool" where
  "store_ok db =
     (distinct (map art_id (articles db))
      \<and> list_all (\<lambda>a. art_id a \<le> article_seq db) (articles db)
      \<and> distinct (map article_url (articles db)))"

text \<open>The status stored for the prediction with a given key, if there is such a row.\<close>

definition lookup_status :: "database \<Rightarrow> nat \<Rightarrow> status option" where
  "lookup_status db i = map_option status (find (\<lambda>a. art_id a = i) (articles db))"

text \<open>The number of stored predictions with a given URL.\<close>

definition url_count :: "database \<Rightarrow> string \<Rightarrow> nat" where
  "url_count db u = length (filter (\<lambda>a. article_url a = u) (articles db))"



section \<open>Claim extractor (scraper.py)\<close>

text \<open>
  A Python \<open>str\<close> is modelled as a \<open>string\<close> whose characters are the code points below
  256 (Latin-1); \<open>str.lower\<close>, \<open>str.upper\<close> and the classes \<open>\s\<close>, \<open>\d\<close>, \<open>\w\<close> and \<open>[A-Z]\<close> of
  the \<open>re\<close> module are written out for these code points.
\<close>

definition ascii_upper :: string where
  "ascii_upper = ''ABCDEFGHIJKLMNOPQRSTUVWXYZ''"

definition ascii_lower :: string where
  "ascii_lower = ''abcdefghijklmnopqrstuvwxyz''"

definition latin1_upper :: string where
  "latin1_upper =
     [CHR 0xC0, CHR 0xC1, CHR 0xC2, CHR 0xC3, CHR 0xC4, CHR 0xC5, CHR 0xC6, CHR 0xC7,
      CHR 0xC8, CHR 0xC9, CHR 0xCA, CHR 0xCB, CHR 0xCC, CHR 0xCD, CHR 0xCE, CHR 0xCF,
      CHR 0xD0, CHR 0xD1, CHR 0xD2, CHR 0xD3, CHR 0xD4, CHR 0xD5, CHR 0xD6, CHR 0xD8,
      CHR 0xD9, CHR 0xDA, CHR 0xDB, CHR 0xDC, CHR 0xDD, CHR 0xDE]"

definition latin1_lower :: string where
  "latin1_lower =
     [CHR 0xE0, CHR 0xE1, CHR 0xE2, CHR 0xE3, CHR 0xE4, CHR 0xE5, CHR 0xE6, CHR 0xE7,
      CHR 0xE8, CHR 0xE9, CHR 0xEA, CHR 0xEB, CHR 0xEC, CHR 0xED, CHR 0xEE, CHR 0xEF,
      CHR 0xF0, CHR 0xF1, CHR 0xF2, CHR 0xF3, CHR 0xF4, CHR 0xF5, CHR 0xF6, CHR 0xF8,
      CHR 0xF9, CHR 0xFA, CHR 0xFB, CHR 0xFC, CHR 0xFD, CHR 0xFE]"

definition lower_char :: "char \<Rightarrow> char" where
  "lower_char c =
     (case map_of (zip (ascii_upper @ latin1_upper) (ascii_lower @ latin1_lower)) c of
        Some l \<Rightarrow> l
      | None \<Rightarrow> c)"

definition upper_char :: "char \<Rightarrow> char" where
  "upper_char c =
     (case map_of (zip (ascii_lower @ latin1_lower) (ascii_upper @ latin1_upper)) c of
        Some u \<Rightarrow> u
      | None \<Rightarrow> c)"

definition py_lower :: "string \<Rightarrow> string" where
  "py_lower s = map lower_char s"

definition py_upper :: "string \<Rightarrow> string" where
  "py_upper s = map upper_char s"

definition is_space :: "char \<Rightarrow> bool" where
  "is_space c = ((of_char c :: nat) \<in> {9, 10, 11, 12, 13, 28, 29, 30, 31, 32, 133, 160})"

definition is_digit :: "char \<Rightarrow> bool" where
  "is_digit c = (48 \<le> (of_char c :: nat) \<and> (of_char c :: nat) \<le> 57)"

definition is_upper_AZ :: "char \<Rightarrow> bool" where
  "is_upper_AZ c = (65 \<le> (of_char c :: nat) \<and> (of_char c :: nat) \<le> 90)"

definition is_word :: "char \<Rightarrow> bool" where
  "is_word c =
     (let n = (of_char c :: nat)
      in (48 \<le> n \<and> n \<le> 57) \<or> (65 \<le> n \<and> n \<le> 90) \<or> (97 \<le> n \<and> n \<le> 122) \<or> n = 95
         \<or> n \<in> {170, 178, 179, 181, 185, 186, 188, 189, 190}
         \<or> (192 \<le> n \<and> n \<noteq> 215 \<and> n \<noteq> 247))"

text \<open>
  The regular expressions of the scraper use literals, an optional character (\<open>s?\<close>), greedy
  repetitions of a character class (\<open>\s+\<close>, \<open>\s*\<close>, \<open>\d+\<close>, \<open>[A-Z]{2,5}\<close>), \<open>\<close>, capturing
  groups, alternations of such sequences and the optional group \<open>(?:\.\d+)?\<close>.
\<close>

datatype atom = Chr char | OptChr char | Rep "char \<Rightarrow> bool" nat "nat option"
  | WordB | GroupOpen nat | GroupClose nat

datatype rx_item = Atom atom | Alt "atom list list" | Opt "atom list"

text \<open>
  The state of a match attempt: the characters consumed since its start (\<open>group(0)\<close>), the
  offsets at which groups were opened and the text of the groups closed so far.
\<close>

record mstate =
  consumed :: string
  marks :: "(nat \<times> nat) list"
  groups :: "(nat \<times> string) list"

definition chr_eq :: "bool \<Rightarrow> char \<Rightarrow> char \<Rightarrow> bool" where
  "chr_eq ic c x = (if ic then lower_char x = lower_char c else x = c)"

definition in_class :: "bool \<Rightarrow> (char \<Rightarrow> bool) \<Rightarrow> char \<Rightarrow> bool" where
  "in_class ic cls x = (cls x \<or> (ic \<and> (cls (lower_char x) \<or> cls (upper_char x))))"

definition push :: "char \<Rightarrow> mstate \<Rightarrow> mstate" where
  "push x st = st\<lparr>consumed := consumed st @ [x]\<rparr>"

definition prev_char :: "char option \<Rightarrow> mstate \<Rightarrow> char option" where
  "prev_char before st = (if consumed st = [] then before else Some (last (consumed st)))"

definition at_boundary :: "char option \<Rightarrow> string \<Rightarrow> bool" where
  "at_boundary p s =
     ((case p of None \<Rightarrow> False | Some c \<Rightarrow> is_word c)
        \<noteq> (case s of [] \<Rightarrow> False | c # cs \<Rightarrow> is_word c))"

text \<open>The weight of a pattern, which decreases along the recursion of the matcher.\<close>

fun item_weight :: "rx_item \<Rightarrow> nat" where
  "item_weight (Atom a) = 1"
| "item_weight (Alt alts) = Suc (sum_list (map (\<lambda>a. Suc (length a)) alts))"
| "item_weight (Opt a) = Suc (length a)"

definition pattern_weight :: "rx_item list \<Rightarrow> nat" where
  "pattern_weight p = sum_list (map item_weight p)"

text \<open>
  A backtracking matcher anchored at the start of \<open>s\<close>, with the priorities of \<open>re\<close>: a
  repetition or an optional part first tries to take more, an alternation tries its
  branches from left to right. \<open>ic\<close> is \<open>re.IGNORECASE\<close>; \<open>before\<close> is the character before the
  start of the attempt, for \<open>\<close>.
\<close>

function match_here ::
  "bool \<Rightarrow> char option \<Rightarrow> rx_item list \<Rightarrow> string \<Rightarrow> mstate \<Rightarrow> mstate option" where
  "match_here ic before [] s st = Some st"
| "match_here ic before (Atom (Chr c) # r) s st =
     (case s of
        [] \<Rightarrow> None
      | x # xs \<Rightarrow> if chr_eq ic c x then match_here ic before r xs (push x st) else None)"
| "match_here ic before (Atom (OptChr c) # r) s st =
     (case (case s of
              [] \<Rightarrow> None
            | x # xs \<Rightarrow> if chr_eq ic c x then match_here ic before r xs (push x st) else None) of
        Some res \<Rightarrow> Some res
      | None \<Rightarrow> match_here ic before r s st)"
| "match_here ic before (Atom (Rep cls lo hi) # r) s st =
     (case (if hi = Some 0 then None
            else case s of
                   [] \<Rightarrow> None
                 | x # xs \<Rightarrow>
                     if in_class ic cls x
                     then match_here ic before
                            (Atom (Rep cls (lo - 1) (map_option (\<lambda>h. h - 1) hi)) # r) xs
                            (push x st)
                     else None) of
        Some res \<Rightarrow> Some res
      | None \<Rightarrow> if lo = 0 then match_here ic before r s st else None)"
| "match_here ic before (Atom WordB # r) s st =
     (if at_boundary (prev_char before st) s then match_here ic before r s st else None)"
| "match_here ic before (Atom (GroupOpen k) # r) s st =
     match_here ic before r s (st\<lparr>marks := (k, length (consumed st)) # marks st\<rparr>)"
| "match_here ic before (Atom (GroupClose k) # r) s st =
     match_here ic before r s
       (st\<lparr>groups := (k, drop (case map_of (marks st) k of None \<Rightarrow> 0 | Some i \<Rightarrow> i)
                               (consumed st)) # groups st\<rparr>)"
| "match_here ic before (Alt alts # r) s st =
     (case alts of
        [] \<Rightarrow> None
      | a # rest \<Rightarrow>
          (case match_here ic before (map Atom a @ r) s st of
             Some res \<Rightarrow> Some res
           | None \<Rightarrow> match_here ic before (Alt rest # r) s st))"
| "match_here ic before (Opt a # r) s st =
     (case match_here ic before (map Atom a @ r) s st of
        Some res \<Rightarrow> Some res
      | None \<Rightarrow> match_here ic before r s st)"
  by pat_completeness auto

lemma pattern_weight_atoms [simp]: "pattern_weight (map Atom a @ r) = length a + pattern_weight r"
  by (induction a) (simp_all add: pattern_weight_def)

lemma pattern_weight_Cons [simp]: "pattern_weight (i # r) = item_weight i + pattern_weight r"
  by (simp add: pattern_weight_def)

termination match_here
  by (relation "inv_image (less_than <*lex*> less_than)
                  (\<lambda>(ic, before, p, s, st). (pattern_weight p, length s))")
     auto

definition lit :: "string \<Rightarrow> atom list" where
  "lit s = map Chr s"

definition empty_mstate :: mstate where
  "empty_mstate = \<lparr>consumed = [], marks = [], groups = []\<rparr>"

text \<open>\<open>re.search\<close>: the match at the leftmost position that has one.\<close>

fun search :: "bool \<Rightarrow> rx_item list \<Rightarrow> char option \<Rightarrow> string \<Rightarrow> mstate option" where
  "search ic p before [] = match_here ic before p [] empty_mstate"
| "search ic p before (c # cs) =
     (case match_here ic before p (c # cs) empty_mstate of
        Some m \<Rightarrow> Some m
      | None \<Rightarrow> search ic p (Some c) cs)"

definition lits :: "string \<Rightarrow> rx_item list" where
  "lits s = map Atom (lit s)"

definition ws1 :: rx_item where
  "ws1 = Atom (Rep is_space 1 None)"

definition ws0 :: rx_item where
  "ws0 = Atom (Rep is_space 0 None)"

definition hedge_verbs :: rx_item where
  "hedge_verbs = Alt (map lit [''surge'', ''jump'', ''rise'', ''gain''])"

text \<open>\<open>self.exclusion_patterns\<close>, in the order of the source.\<close>

definition exclusion_patterns :: "rx_item list list" where
  "exclusion_patterns =
     [lits ''could'' @ [ws1, hedge_verbs],
      lits ''might'' @ [ws1, hedge_verbs],
      lits ''may'' @ [ws1, hedge_verbs],
      lits ''expected'' @ [ws1] @ lits ''to'',
      lits ''projected'' @ [ws1] @ lits ''to'',
      lits ''forecasted'' @ [ws1] @ lits ''to'',
      lits ''if'' @ [ws1],
      lits ''analyst'' @ [Atom (OptChr CHR ''s''), ws1] @ lits ''predict'',
      lits ''price'' @ [ws1] @ lits ''target'',
      lits ''last'' @ [ws1] @ lits ''week'',
      lits ''yesterday'',
      lits ''last'' @ [ws1] @ lits ''month'',
      lits ''last'' @ [ws1] @ lits ''quarter'',
      lits ''surged'' @ [ws1] @ lits ''last'',
      lits ''dropped'' @ [ws1] @ lits ''last'']"

definition plural :: "string \<Rightarrow> atom list" where
  "plural w = lit w @ [OptChr CHR ''s'']"

definition ticker_group :: "rx_item list" where
  "ticker_group = [Atom (GroupOpen 1), Atom WordB, Atom (Rep is_upper_AZ 2 (Some 5)),
                   Atom WordB, Atom (GroupClose 1)]"

definition percent_group :: "rx_item list" where
  "percent_group = [Atom (GroupOpen 2), Atom (Rep is_digit 1 None),
                    Opt [Chr CHR ''.'', Rep is_digit 1 None], Atom (GroupClose 2),
                    ws0, Atom (Chr CHR ''%'')]"

text \<open>\<open>self.movement_patterns\<close>, in the order of the source.\<close>

definition movement_patterns :: "rx_item list list" where
  "movement_patterns =
     [ticker_group
        @ [ws1, Alt (map plural [''surge'', ''jump'', ''soar'', ''rallie'', ''climb'']), ws1]
        @ percent_group,
      ticker_group
        @ [ws1, Alt (map plural [''plunge'', ''drop'', ''fall'', ''decline'', ''tumble'']), ws1]
        @ percent_group,
      [Atom (Chr CHR ''$''), Atom (GroupOpen 1), Atom (Rep is_upper_AZ 2 (Some 5)),
       Atom (GroupClose 1), ws1, Alt (map lit [''up'', ''down'']), ws1]
        @ percent_group,
      ticker_group
        @ [ws1, Alt (map lit [''stock'', ''shares'']), ws1, Alt (map lit [''up'', ''down'']), ws1]
        @ percent_group]"

definition group :: "mstate \<Rightarrow> nat \<Rightarrow> string" where
  "group m k =
     (if k = 0 then consumed m
      else case map_of (groups m) k of Some g \<Rightarrow> g | None \<Rightarrow> [])"

definition digit_val :: "char \<Rightarrow> nat" where
  "digit_val c = of_char c - 48"

definition digits_val :: "string \<Rightarrow> nat" where
  "digits_val ds = foldl (\<lambda>n d. 10 * n + digit_val d) 0 ds"

text \<open>
  \<open>float\<close> on the strings the second group can hold, digits with an optional fraction;
  \<open>None\<close> stands for \<open>ValueError\<close>.
\<close>

definition py_float :: "string \<Rightarrow> real option" where
  "py_float s =
     (let ip = takeWhile is_digit s; rest = dropWhile is_digit s
      in if ip = [] then None
         else case rest of
                [] \<Rightarrow> Some (real (digits_val ip))
              | c # fp \<Rightarrow>
                  if c = CHR ''.'' \<and> fp \<noteq> [] \<and> list_all is_digit fp
                  then Some (real (digits_val ip) + real (digits_val fp) / 10 ^ length fp)
                  else None)"

fun starts_with :: "string \<Rightarrow> string \<Rightarrow> bool" where
  "starts_with [] s = True"
| "starts_with (w # ws) [] = False"
| "starts_with (w # ws) (c # cs) = (w = c \<and> starts_with ws cs)"

fun contains :: "string \<Rightarrow> string \<Rightarrow> bool" where
  "contains w [] = (w = [])"
| "contains w (c # cs) = (starts_with w (c # cs) \<or> contains w cs)"

definition down_words :: "string list" where
  "down_words = [''plunge'', ''drop'', ''fall'', ''decline'', ''tumble'', ''down'']"

text \<open>
  The body of the inner loop of \<open>extract_ticker_and_percentage\<close> for one match: \<open>None\<close> is
  \<open>continue\<close>.
\<close>

definition claim_of_match :: "mstate \<Rightarrow> (string \<times> real \<times> string) option" where
  "claim_of_match m =
     (let ticker = py_upper (group m 1);
          percentage_str = group m 2
      in case py_float percentage_str of
           None \<Rightarrow> None
         | Some percentage \<Rightarrow>
             if percentage < 20 then None
             else let match_text = py_lower (group m 0)
                  in if list_ex (\<lambda>word. contains word match_text) down_words
                     then Some (ticker, - percentage, ''down'')
                     else Some (ticker, percentage, ''up''))"

text \<open>
  The loop over \<open>re.finditer(pattern, text, re.IGNORECASE)\<close>: matches are looked for from
  left to right, the next one from the end of the last (\<open>skip\<close> counts the characters still
  covered by it), and the first match that yields a claim is returned.
\<close>

fun scan_matches ::
  "rx_item list \<Rightarrow> char option \<Rightarrow> string \<Rightarrow> nat \<Rightarrow> (string \<times> real \<times> string) option" where
  "scan_matches p before [] skip =
     (if skip = 0
      then (case match_here True before p [] empty_mstate of
              None \<Rightarrow> None
            | Some m \<Rightarrow> claim_of_match m)
      else None)"
| "scan_matches p before (c # cs) skip =
     (if skip = 0
      then (case match_here True before p (c # cs) empty_mstate of
              None \<Rightarrow> scan_matches p (Some c) cs 0
            | Some m \<Rightarrow>
                (case claim_of_match m of
                   Some res \<Rightarrow> Some res
                 | None \<Rightarrow> scan_matches p (Some c) cs (length (consumed m) - 1)))
      else scan_matches p (Some c) cs (skip - 1))"

fun first_claim :: "rx_item list list \<Rightarrow> string \<Rightarrow> (string \<times> real \<times> string) option" where
  "first_claim [] text = None"
| "first_claim (p # ps) text =
     (case scan_matches p None text 0 of
        Some res \<Rightarrow> Some res
      | None \<Rightarrow> first_claim ps text)"

definition excluded :: "string \<Rightarrow> bool" where
  "excluded text_lower = list_ex (\<lambda>p. search False p None text_lower \<noteq> None) exclusion_patterns"

text \<open>\<open>NewsScraper.extract_ticker_and_percentage\<close>\<close>

definition extract_ticker_and_percentage :: "string \<Rightarrow> (string \<times> real \<times> string) option" where
  "extract_ticker_and_percentage text =
     (let text_lower = py_lower text
      in if excluded text_lower then None
         else first_claim movement_patterns text)"

text \<open>
  The exclusion phrases as the specification lists them: a modal and a hedge verb, the
  two-word phrases, "analyst(s) predict", "if" and "yesterday", the words of a phrase
  separated by a non-empty run of whitespace.
\<close>

definition spaces :: "string \<Rightarrow> bool" where
  "spaces sp = (sp \<noteq> [] \<and> list_all is_space sp)"

definition hedge_modals :: "string list" where
  "hedge_modals = [''could'', ''might'', ''may'']"

definition hedge_verb_words :: "string list" where
  "hedge_verb_words = [''surge'', ''jump'', ''rise'', ''gain'']"

definition two_word_phrases :: "(string \<times> string) list" where
  "two_word_phrases =
     [(''expected'', ''to''), (''projected'', ''to''), (''forecasted'', ''to''),
      (''price'', ''target''), (''last'', ''week''), (''last'', ''month''),
      (''last'', ''quarter''), (''surged'', ''last''), (''dropped'', ''last'')]"

inductive exclusion_phrase :: "string \<Rightarrow> bool" where
  hedge: "m \<in> set hedge_modals \<Longrightarrow> v \<in> set hedge_verb_words \<Longrightarrow> spaces sp \<Longrightarrow>
          exclusion_phrase (m @ sp @ v)"
| two_words: "(a, b) \<in> set two_word_phrases \<Longrightarrow> spaces sp \<Longrightarrow> exclusion_phrase (a @ sp @ b)"
| analyst: "spaces sp \<Longrightarrow> exclusion_phrase (''analyst'' @ sp @ ''predict'')"
| analysts: "spaces sp \<Longrightarrow> exclusion_phrase (''analysts'' @ sp @ ''predict'')"
| conditional: "spaces sp \<Longrightarrow> exclusion_phrase (''if'' @ sp)"
| yesterday: "exclusion_phrase ''yesterday''"

definition took :: "string \<Rightarrow> mstate \<Rightarrow> mstate" where
  "took w st = st\<lparr>consumed := consumed st @ w\<rparr>"

lemma took_Nil [simp]: "took [] st = st"
  by (simp add: took_def)

lemma took_push: "took w (push x st) = took (x # w) st"
  by (simp add: took_def push_def)

section \<open>Concrete inputs\<close>

text \<open>
  An ISO parser on the timestamps used below: 10:00, 10:50 and 13:00 Eastern time on
  Monday 2024-03-04 as aware datetimes, 10:00 as a naive one; any other string fails.
\<close>

definition demo_fromisoformat :: "string \<Rightarrow> datetime option" where
  "demo_fromisoformat s =
     (if s = ''2024-03-04T10:00:00-05:00'' then Some (Aware 1709564400000000)
      else if s = ''2024-03-04T10:50:00-05:00'' then Some (Aware 1709567400000000)
      else if s = ''2024-03-04T13:00:00-05:00'' then Some (Aware 1709575200000000)
      else if s = ''2024-03-04T10:00:00'' then Some (Naive 1709546400000000)
      else None)"

definition demo_env :: collect_env where
  "demo_env = \<lparr>validate_ticker = (\<lambda>tk. tk = ''AAPL'' \<or> tk = ''NVDA''),
               fromisoformat_of = demo_fromisoformat,
               now_of = 1709550000000000,
               today_of = ''2024-03-04''\<rparr>"

definition aapl_claim :: raw_article where
  "aapl_claim = \<lparr>ticker = ''AAPL'', claimed_percentage = 25, direction = ''up'',
                 article_timestamp = ''2024-03-04T10:00:00-05:00'',
                 source_name = ''Yahoo Finance'', article_url = ''https://example.com/aapl'',
                 headline = ''AAPL surges 25% after earnings''\<rparr>"

definition nvda_claim :: raw_article where
  "nvda_claim = \<lparr>ticker = ''NVDA'', claimed_percentage = 24, direction = ''up'',
                 article_timestamp = ''2024-03-04T10:00:00-05:00'',
                 source_name = ''Yahoo Finance'', article_url = ''https://example.com/nvda-1'',
                 headline = ''NVDA surges 24%''\<rparr>"

definition nvda_repeat :: raw_article where
  "nvda_repeat = \<lparr>ticker = ''NVDA'', claimed_percentage = 26, direction = ''up'',
                  article_timestamp = ''2024-03-04T10:50:00-05:00'',
                  source_name = ''MarketWatch'', article_url = ''https://example.com/nvda-2'',
                  headline = ''NVDA jumps 26%''\<rparr>"

definition nvda_garbled :: raw_article where
  "nvda_garbled = \<lparr>ticker = ''NVDA'', claimed_percentage = 25, direction = ''up'',
                   article_timestamp = ''not a timestamp'',
                   source_name = ''Benzinga'', article_url = ''https://example.com/nvda-3'',
                   headline = ''NVDA soars 25%''\<rparr>"

text \<open>Intraday, AAPL stands 23% above its previous close and NVDA has no quote.\<close>

definition intraday_feed :: price_oracle where
  "intraday_feed =
     \<lparr>get_previous_close = (\<lambda>k tk. if tk = ''AAPL'' then Some 100 else None),
      get_current_price = (\<lambda>k tk. if tk = ''AAPL'' then Some 123 else None)\<rparr>"

text \<open>At the close, AAPL stands 10% below its previous close and NVDA 12% above.\<close>

definition closing_feed :: price_oracle where
  "closing_feed =
     \<lparr>get_previous_close = (\<lambda>k tk. Some 100),
      get_current_price = (\<lambda>k tk. if tk = ''AAPL'' then Some 90 else Some 112)\<rparr>"

text \<open>Both claims collected, then one refresh while the market is open.\<close>

definition morning_db :: database where
  "morning_db = run_cycles [Collect demo_env [aapl_claim, nvda_claim],
                            Refresh intraday_feed False] init_database"




text \<open>The row that \<open>add_article\<close> stores for a candidate on 2024-03-04, with a given key and flag.\<close>

definition stored_row :: "raw_article \<Rightarrow> nat \<Rightarrow> bool \<Rightarrow> article" where
  "stored_row r i dup =
     \<lparr>ticker = ticker r, claimed_percentage = claimed_percentage r, direction = direction r,
      article_timestamp = article_timestamp r, source_name = source_name r,
      article_url = article_url r, headline = headline r, art_id = i, status = PENDING,
      is_duplicate = dup, collection_date = ''2024-03-04''\<rparr>"

section \<open>Theorems\<close>

text \<open>
  C1. For every claimed percentage, actual percentage, direction argument and
  market-closed flag, \<open>determine_status\<close> returns what the ordered rules of the
  specification return: MISS on a direction mismatch with the market closed; otherwise HIT
  when the gap is at most 5 and the directions agree; otherwise, when the gap is at most 10
  and the directions agree, PARTIAL with the market closed and PENDING with it open;
  otherwise MISS with the market closed and PENDING with it open.
\<close>

theorem determine_status_follows_spec_rules:
  "determine_status c a d m = classify_spec c a d m"
  by (simp add: determine_status_def classify_spec_def spec_claimed_up_def
        spec_actual_up_def spec_gap_def Let_def)


text \<open>
  C9. With the market closed, \<open>determine_status\<close> returns HIT, PARTIAL or MISS and never
  PENDING, whatever the percentages and the direction argument are.
\<close>

theorem determine_status_closed_is_terminal:
  "determine_status c a d True \<in> {HIT, PARTIAL, MISS}
   \<and> determine_status c a d True \<noteq> PENDING"
  by (simp add: determine_status_def Let_def)

text \<open>
  C10. The result of \<open>determine_status\<close> does not depend on its direction argument: any
  two values of it give the same status.
\<close>

theorem determine_status_ignores_direction:
  "determine_status c a d1 m = determine_status c a d2 m"
  by (simp add: determine_status_def Let_def)

section \<open>Lemmas about the store and the cycles\<close>

lemma articles_add_price_snapshot [simp]:
  "articles (add_price_snapshot db i pc cp mv g) = articles db"
  by (simp add: add_price_snapshot_def)

lemma article_seq_add_price_snapshot [simp]:
  "article_seq (add_price_snapshot db i pc cp mv g) = article_seq db"
  by (simp add: add_price_snapshot_def)

lemma articles_update_article_status:
  "articles (update_article_status db i st) =
     map (\<lambda>a. if art_id a = i then a\<lparr>status := st\<rparr> else a) (articles db)"
  by (simp add: update_article_status_def)

lemma article_seq_update_article_status [simp]:
  "article_seq (update_article_status db i st) = article_seq db"
  by (simp add: update_article_status_def)

lemma articles_mark_as_duplicate:
  "articles (mark_as_duplicate db i) =
     map (\<lambda>a. if art_id a = i then a\<lparr>is_duplicate := True\<rparr> else a) (articles db)"
  by (simp add: mark_as_duplicate_def)

lemma article_seq_mark_as_duplicate [simp]:
  "article_seq (mark_as_duplicate db i) = article_seq db"
  by (simp add: mark_as_duplicate_def)

lemma map_art_id_status_upd:
  "map art_id (map (\<lambda>a. if art_id a = i then a\<lparr>status := st\<rparr> else a) xs) = map art_id xs"
  by (induction xs) auto

lemma map_url_status_upd:
  "map article_url (map (\<lambda>a. if art_id a = i then a\<lparr>status := st\<rparr> else a) xs) = map article_url xs"
  by (induction xs) auto

lemma map_art_id_dup_upd:
  "map art_id (map (\<lambda>a. if art_id a = i then a\<lparr>is_duplicate := True\<rparr> else a) xs) = map art_id xs"
  by (induction xs) auto

lemma map_url_dup_upd:
  "map article_url (map (\<lambda>a. if art_id a = i then a\<lparr>is_duplicate := True\<rparr> else a) xs) = map article_url xs"
  by (induction xs) auto

lemma list_all_le_status_upd:
  "list_all (\<lambda>a. art_id a \<le> n) (map (\<lambda>a. if art_id a = i then a\<lparr>status := st\<rparr> else a) xs)
     = list_all (\<lambda>a. art_id a \<le> n) xs"
  by (induction xs) auto

lemma list_all_le_dup_upd:
  "list_all (\<lambda>a. art_id a \<le> n) (map (\<lambda>a. if art_id a = i then a\<lparr>is_duplicate := True\<rparr> else a) xs)
     = list_all (\<lambda>a. art_id a \<le> n) xs"
  by (induction xs) auto

lemma store_ok_update_article_status:
  "store_ok db \<Longrightarrow> store_ok (update_article_status db i st)"
  by (simp only: store_ok_def articles_update_article_status article_seq_update_article_status
        map_art_id_status_upd map_url_status_upd list_all_le_status_upd)

lemma store_ok_mark_as_duplicate:
  "store_ok db \<Longrightarrow> store_ok (mark_as_duplicate db i)"
  by (simp only: store_ok_def articles_mark_as_duplicate article_seq_mark_as_duplicate
        map_art_id_dup_upd map_url_dup_upd list_all_le_dup_upd)

lemma store_ok_add_price_snapshot:
  "store_ok db \<Longrightarrow> store_ok (add_price_snapshot db i pc cp mv g)"
  by (simp add: store_ok_def)

lemma store_ok_init: "store_ok init_database"
  by (simp add: store_ok_def init_database_def)

lemma store_ok_add_article:
  "store_ok db \<Longrightarrow> store_ok (fst (add_article db tk pct dir ts src url hl cdate))"
  by (auto simp: store_ok_def add_article_def Let_def list_all_iff)

lemma keep_row_update_article_status:
  "a \<in> set (articles db) \<Longrightarrow> art_id a \<noteq> i \<Longrightarrow> a \<in> set (articles (update_article_status db i st))"
  by (force simp: articles_update_article_status)

lemma keep_row_mark_as_duplicate:
  "a \<in> set (articles db) \<Longrightarrow> art_id a \<noteq> i \<Longrightarrow> a \<in> set (articles (mark_as_duplicate db i))"
  by (force simp: articles_mark_as_duplicate)

lemma update_loop_keeps_row:
  "a \<in> set (articles db) \<Longrightarrow> art_id a \<notin> art_id ` set pending \<Longrightarrow>
   a \<in> set (articles (fst (update_loop orc m k pending (db, n))))"
proof (induction pending arbitrary: db n k)
  case Nil
  then show ?case by simp
next
  case (Cons p pending)
  show ?case
  proof (cases "get_price_data orc k (ticker p)")
    case None
    then show ?thesis using Cons by simp
  next
    case (Some pd)
    have "a \<in> set (articles (update_article_status
             (add_price_snapshot db (art_id p) (previous_close pd) (current_price pd)
                (actual_movement_pct pd) (claimed_percentage p - actual_movement_pct pd))
             (art_id p)
             (determine_status (claimed_percentage p) (actual_movement_pct pd) (direction p) m)))"
      using Cons.prems by (intro keep_row_update_article_status) auto
    then show ?thesis using Some Cons.prems Cons.IH by (simp add: Let_def)
  qed
qed

lemma store_ok_update_loop:
  "store_ok db \<Longrightarrow> store_ok (fst (update_loop orc m k pending (db, n)))"
proof (induction pending arbitrary: db n k)
  case Nil
  then show ?case by simp
next
  case (Cons p pending)
  show ?case
  proof (cases "get_price_data orc k (ticker p)")
    case None
    then show ?thesis using Cons by simp
  next
    case (Some pd)
    then show ?thesis using Cons.prems
      by (simp add: Let_def Cons.IH store_ok_update_article_status store_ok_add_price_snapshot)
  qed
qed

lemma store_ok_update_prices:
  "store_ok db \<Longrightarrow> store_ok (fst (update_prices orc m db))"
  by (simp add: update_prices_def store_ok_update_loop)

lemma terminal_not_pending_id:
  assumes "store_ok db" "a \<in> set (articles db)" "status a \<noteq> PENDING"
  shows "art_id a \<notin> art_id ` set (get_pending_articles db)"
proof
  assume "art_id a \<in> art_id ` set (get_pending_articles db)"
  then obtain b where b: "b \<in> set (articles db)" "status b = PENDING" "art_id b = art_id a"
    by (auto simp: get_pending_articles_def)
  from assms(1) have "inj_on art_id (set (articles db))"
    by (simp add: store_ok_def distinct_map)
  with b assms(2) have "b = a" by (auto dest: inj_onD)
  with b assms(3) show False by simp
qed

lemma update_prices_keeps_terminal:
  assumes "store_ok db" "a \<in> set (articles db)" "status a \<noteq> PENDING"
  shows "a \<in> set (articles (fst (update_prices orc m db)))"
  unfolding update_prices_def
  by (rule update_loop_keeps_row [OF assms(2) terminal_not_pending_id [OF assms]])

lemma store_ok_collect_one:
  "store_ok (fst s) \<Longrightarrow> store_ok (fst (collect_one env r s))"
  by (auto simp: collect_one_def Let_def store_ok_add_article store_ok_mark_as_duplicate
           split: option.splits)

lemma add_article_keeps_row:
  "a \<in> set (articles db) \<Longrightarrow> a \<in> set (articles (fst (add_article db tk pct dir ts src url hl cdate)))"
  by (simp add: add_article_def Let_def)

lemma add_article_new_id:
  "snd (add_article db tk pct dir ts src url hl cdate) = Some i \<Longrightarrow> i = Suc (article_seq db)"
  by (auto simp: add_article_def Let_def split: if_splits)

lemma collect_one_keeps_row:
  assumes "store_ok (fst s)" "a \<in> set (articles (fst s))"
  shows "a \<in> set (articles (fst (collect_one env r s)))"
proof -
  have le: "art_id a \<le> article_seq (fst s)"
    using assms by (auto simp: store_ok_def list_all_iff)
  show ?thesis
    using assms(2) le
    by (auto simp: collect_one_def Let_def add_article_keeps_row
             dest!: add_article_new_id intro!: keep_row_mark_as_duplicate
             split: option.splits)
qed

lemma collect_articles_fold:
  "store_ok (fst s) \<Longrightarrow> a \<in> set (articles (fst s)) \<Longrightarrow>
   store_ok (fst (foldl (\<lambda>s r. collect_one env r s) s scraped))
   \<and> a \<in> set (articles (fst (foldl (\<lambda>s r. collect_one env r s) s scraped)))"
proof (induction scraped arbitrary: s)
  case Nil
  then show ?case by simp
next
  case (Cons r scraped)
  then show ?case
    by (simp add: store_ok_collect_one collect_one_keeps_row)
qed

lemma store_ok_foldl_collect:
  "store_ok (fst s) \<Longrightarrow> store_ok (fst (foldl (\<lambda>s r. collect_one env r s) s scraped))"
  by (induction scraped arbitrary: s) (simp_all add: store_ok_collect_one)

lemma store_ok_run_cycle: "store_ok db \<Longrightarrow> store_ok (run_cycle c db)"
  by (cases c) (simp_all add: collect_articles_def store_ok_foldl_collect store_ok_update_prices)

lemma run_cycle_keeps_terminal:
  assumes "store_ok db" "a \<in> set (articles db)" "status a \<noteq> PENDING"
  shows "a \<in> set (articles (run_cycle c db))"
proof (cases c)
  case (Collect env scraped)
  then show ?thesis
    using collect_articles_fold [of "(db, zero_counters)" a env scraped] assms
    by (simp add: collect_articles_def)
next
  case (Refresh orc m)
  then show ?thesis using update_prices_keeps_terminal [OF assms] by simp
qed

lemma run_cycles_keeps_terminal:
  "store_ok db \<Longrightarrow> a \<in> set (articles db) \<Longrightarrow> status a \<noteq> PENDING \<Longrightarrow>
   store_ok (run_cycles cs db) \<and> a \<in> set (articles (run_cycles cs db))"
proof (induction cs arbitrary: db)
  case Nil
  then show ?case by simp
next
  case (Cons c cs)
  then show ?case
    by (simp add: store_ok_run_cycle run_cycle_keeps_terminal)
qed

lemma lookup_status_Some_iff:
  assumes "store_ok db"
  shows "lookup_status db i = Some s \<longleftrightarrow> (\<exists>a \<in> set (articles db). art_id a = i \<and> status a = s)"
proof -
  have inj: "inj_on art_id (set (articles db))"
    using assms by (simp add: store_ok_def distinct_map)
  show ?thesis
  proof
    assume "lookup_status db i = Some s"
    then obtain a where "find (\<lambda>a. art_id a = i) (articles db) = Some a" "status a = s"
      by (auto simp: lookup_status_def)
    then show "\<exists>a \<in> set (articles db). art_id a = i \<and> status a = s"
      by (auto simp: find_Some_iff)
  next
    assume "\<exists>a \<in> set (articles db). art_id a = i \<and> status a = s"
    then obtain a where a: "a \<in> set (articles db)" "art_id a = i" "status a = s" by blast
    then obtain b where b: "find (\<lambda>a. art_id a = i) (articles db) = Some b"
      by (cases "find (\<lambda>a. art_id a = i) (articles db)") (auto simp: find_None_iff)
    then have "b \<in> set (articles db)" "art_id b = i"
      by (auto simp: find_Some_iff)
    with a inj have "b = a" by (auto dest: inj_onD)
    with a b show "lookup_status db i = Some s" by (simp add: lookup_status_def)
  qed
qed




lemma url_count_zero: "u \<notin> set (map article_url (articles db)) \<Longrightarrow> url_count db u = 0"
  by (auto simp: url_count_def filter_empty_conv)











lemma store_ok_run_cycles: "store_ok db \<Longrightarrow> store_ok (run_cycles cs db)"
  by (induction cs arbitrary: db) (simp_all add: store_ok_run_cycle)

lemmas eval_defs = collect_articles_def collect_one_def
  check_for_duplicates_def add_article_def update_prices_def get_pending_articles_def
  get_price_data_def calculate_movement_def py_round2_def
  determine_status_def update_article_status_def add_price_snapshot_def
  mark_as_duplicate_def time_diff_hours_def total_seconds_def stored_row_def
  Let_def init_database_def zero_counters_def demo_env_def demo_fromisoformat_def
  aapl_claim_def nvda_claim_def nvda_repeat_def nvda_garbled_def intraday_feed_def
  closing_feed_def

lemma morning_db_value:
  "morning_db =
     \<lparr>articles = [(stored_row aapl_claim 1 False)\<lparr>status := HIT\<rparr>, stored_row nvda_claim 2 False],
      article_seq = 2,
      price_snapshots = [\<lparr>snap_article_id = 1, snap_previous_close = 100,
                           snap_current_price = 123, snap_actual_movement_pct = 23,
                           snap_gap = 2\<rparr>]\<rparr>"
  unfolding morning_db_def by (simp add: eval_defs)

lemma store_ok_morning_db: "store_ok morning_db"
  unfolding morning_db_def by (intro store_ok_run_cycles store_ok_init)




section \<open>Lemmas about the matcher\<close>

declare match_here.simps [simp del]

lemma match_atoms:
  "match_here False b (map Atom (lit w) @ r) (w @ s) st = match_here False b r s (took w st)"
proof (induction w arbitrary: st)
  case Nil
  then show ?case by (simp add: lit_def)
next
  case (Cons c w)
  have "match_here False b (map Atom (lit (c # w)) @ r) ((c # w) @ s) st
          = match_here False b (map Atom (lit w) @ r) (w @ s) (push c st)"
    by (simp add: lit_def chr_eq_def match_here.simps(2))
  then show ?case by (simp add: Cons.IH took_push)
qed

lemma match_lits:
  "match_here False b (lits w @ r) (w @ s) st = match_here False b r s (took w st)"
  by (simp add: lits_def match_atoms)

lemma match_lits_end: "match_here False b (lits w) (w @ s) st \<noteq> None"
  using match_lits [of b w "[]" s st] by (simp add: match_here.simps(1))

lemma match_rep:
  "list_all cls sp \<Longrightarrow> lo \<le> length sp \<Longrightarrow> match_here False b r s (took sp st) \<noteq> None \<Longrightarrow>
   match_here False b (Atom (Rep cls lo None) # r) (sp @ s) st \<noteq> None"
proof (induction sp arbitrary: lo st)
  case Nil
  then show ?case
    by (subst match_here.simps(4)) (auto split: option.splits)
next
  case (Cons x sp)
  have "match_here False b (Atom (Rep cls (lo - 1) None) # r) (sp @ s) (push x st) \<noteq> None"
    using Cons.prems by (intro Cons.IH) (auto simp: took_push)
  then show ?case
    using Cons.prems by (subst match_here.simps(4)) (auto simp: in_class_def)
qed

lemma match_ws1:
  "spaces sp \<Longrightarrow> match_here False b r s (took sp st) \<noteq> None \<Longrightarrow>
   match_here False b (ws1 # r) (sp @ s) st \<noteq> None"
  unfolding ws1_def spaces_def
  by (rule match_rep) (auto simp: Suc_le_eq)

lemma match_alt:
  "v \<in> set vs \<Longrightarrow> match_here False b (map Atom (lit v) @ r) s st \<noteq> None \<Longrightarrow>
   match_here False b (Alt (map lit vs) # r) s st \<noteq> None"
proof (induction vs)
  case Nil
  then show ?case by simp
next
  case (Cons u vs)
  show ?case
  proof (cases "match_here False b (map Atom (lit u) @ r) s st")
    case None
    with Cons have "match_here False b (Alt (map lit vs) # r) s st \<noteq> None" by auto
    with None show ?thesis by (simp add: match_here.simps(8))
  next
    case (Some res)
    then show ?thesis by (simp add: match_here.simps(8))
  qed
qed

lemma match_optchr_skip:
  "match_here False b r s st \<noteq> None \<Longrightarrow> match_here False b (Atom (OptChr c) # r) s st \<noteq> None"
  by (subst match_here.simps(3)) (auto split: option.splits list.splits)

lemma match_optchr_take:
  "match_here False b r s (push c st) \<noteq> None \<Longrightarrow>
   match_here False b (Atom (OptChr c) # r) (c # s) st \<noteq> None"
  by (subst match_here.simps(3)) (auto simp: chr_eq_def split: option.splits)

lemma search_hit:
  "match_here ic before p s empty_mstate \<noteq> None \<Longrightarrow> search ic p before s \<noteq> None"
  by (cases s) (auto split: option.splits)

lemma search_append:
  "(\<And>b. match_here ic b p s empty_mstate \<noteq> None) \<Longrightarrow> search ic p before (pre @ s) \<noteq> None"
proof (induction pre arbitrary: before)
  case Nil
  then show ?case by (simp add: search_hit)
next
  case (Cons c pre)
  then show ?case by (auto split: option.splits)
qed

lemma excludedI:
  assumes "p \<in> set exclusion_patterns" "\<And>b. match_here False b p s empty_mstate \<noteq> None"
  shows "excluded (pre @ s)"
proof -
  have "search False p None (pre @ s) \<noteq> None"
    using assms(2) by (rule search_append)
  with assms(1) show ?thesis
    by (auto simp: excluded_def list_ex_iff)
qed

lemma hedge_pattern:
  "m \<in> set hedge_modals \<Longrightarrow> lits m @ [ws1, hedge_verbs] \<in> set exclusion_patterns"
  by (auto simp: hedge_modals_def exclusion_patterns_def)

lemma two_word_pattern:
  "(a, b) \<in> set two_word_phrases \<Longrightarrow> lits a @ [ws1] @ lits b \<in> set exclusion_patterns"
  by (auto simp: two_word_phrases_def exclusion_patterns_def)

lemma match_hedge:
  assumes "v \<in> set hedge_verb_words" "spaces sp"
  shows "match_here False b (lits m @ [ws1, hedge_verbs]) (m @ sp @ v @ post) empty_mstate \<noteq> None"
proof -
  have "match_here False b (map Atom (lit v) @ []) (v @ post) (took sp (took m empty_mstate)) \<noteq> None"
    by (simp only: match_atoms match_here.simps(1)) simp
  then have "match_here False b [hedge_verbs] (v @ post) (took sp (took m empty_mstate)) \<noteq> None"
    unfolding hedge_verbs_def using assms(1) unfolding hedge_verb_words_def
    by (intro match_alt)
  then have "match_here False b [ws1, hedge_verbs] (sp @ v @ post) (took m empty_mstate) \<noteq> None"
    using assms(2) by (intro match_ws1)
  then show ?thesis
    by (simp only: match_lits not_False_eq_True)
qed

lemma match_two_words:
  assumes "spaces sp"
  shows "match_here False b (lits a @ [ws1] @ lits w) (a @ sp @ w @ post) empty_mstate \<noteq> None"
proof -
  have "match_here False b (ws1 # lits w) (sp @ w @ post) (took a empty_mstate) \<noteq> None"
    using assms by (intro match_ws1 match_lits_end)
  then show ?thesis
    by (simp only: match_lits append_Cons append_Nil not_False_eq_True)
qed

lemma match_analyst:
  assumes "spaces sp"
  shows "match_here False b (lits ''analyst'' @ [Atom (OptChr CHR ''s''), ws1] @ lits ''predict'')
           (''analyst'' @ sp @ ''predict'' @ post) empty_mstate \<noteq> None"
    and "match_here False b (lits ''analyst'' @ [Atom (OptChr CHR ''s''), ws1] @ lits ''predict'')
           (''analyst'' @ CHR ''s'' # sp @ ''predict'' @ post) empty_mstate \<noteq> None"
proof -
  have tail: "match_here False b (ws1 # lits ''predict'') (sp @ ''predict'' @ post) st \<noteq> None" for st
    using assms by (intro match_ws1 match_lits_end)
  have skip: "match_here False b (Atom (OptChr CHR ''s'') # ws1 # lits ''predict'')
          (sp @ ''predict'' @ post) (took ''analyst'' empty_mstate) \<noteq> None"
    by (intro match_optchr_skip tail)
  have take: "match_here False b (Atom (OptChr CHR ''s'') # ws1 # lits ''predict'')
          (CHR ''s'' # sp @ ''predict'' @ post) (took ''analyst'' empty_mstate) \<noteq> None"
    by (intro match_optchr_take tail)
  have unfold: "match_here False b (lits ''analyst'' @ [Atom (OptChr CHR ''s''), ws1] @ lits ''predict'')
           (''analyst'' @ s) empty_mstate
        = match_here False b (Atom (OptChr CHR ''s'') # ws1 # lits ''predict'') s
            (took ''analyst'' empty_mstate)" for s
    using match_lits [of b "''analyst''" "[Atom (OptChr CHR ''s''), ws1] @ lits ''predict''" s
        empty_mstate]
    by simp
  show "match_here False b (lits ''analyst'' @ [Atom (OptChr CHR ''s''), ws1] @ lits ''predict'')
           (''analyst'' @ sp @ ''predict'' @ post) empty_mstate \<noteq> None"
    using skip by (simp only: unfold not_False_eq_True)
  show "match_here False b (lits ''analyst'' @ [Atom (OptChr CHR ''s''), ws1] @ lits ''predict'')
           (''analyst'' @ CHR ''s'' # sp @ ''predict'' @ post) empty_mstate \<noteq> None"
    using take by (simp only: unfold not_False_eq_True)
qed

lemma exclusion_phrase_excluded:
  assumes "exclusion_phrase w"
  shows "excluded (pre @ w @ post)"
  using assms
proof cases
  case (hedge m v sp)
  have "excluded (pre @ m @ sp @ v @ post)"
    by (rule excludedI [OF hedge_pattern [OF hedge(2)] match_hedge [OF hedge(3,4)]])
  then show ?thesis by (simp add: hedge(1))
next
  case (two_words a b sp)
  have "excluded (pre @ a @ sp @ b @ post)"
    by (rule excludedI [OF two_word_pattern [OF two_words(2)] match_two_words [OF two_words(3)]])
  then show ?thesis by (simp add: two_words(1))
next
  case (analyst sp)
  have p: "lits ''analyst'' @ [Atom (OptChr CHR ''s''), ws1] @ lits ''predict'' \<in> set exclusion_patterns"
    by (simp add: exclusion_patterns_def)
  have "excluded (pre @ ''analyst'' @ sp @ ''predict'' @ post)"
    by (rule excludedI [OF p match_analyst(1) [OF analyst(2)]])
  then show ?thesis by (simp add: analyst(1))
next
  case (analysts sp)
  have p: "lits ''analyst'' @ [Atom (OptChr CHR ''s''), ws1] @ lits ''predict'' \<in> set exclusion_patterns"
    by (simp add: exclusion_patterns_def)
  have "excluded (pre @ ''analyst'' @ CHR ''s'' # sp @ ''predict'' @ post)"
    by (rule excludedI [OF p match_analyst(2) [OF analysts(2)]])
  then show ?thesis by (simp add: analysts(1))
next
  case (conditional sp)
  have p: "lits ''if'' @ [ws1] @ lits [] \<in> set exclusion_patterns"
    by (simp add: exclusion_patterns_def lits_def lit_def)
  have "excluded (pre @ ''if'' @ sp @ [] @ post)"
    by (rule excludedI [OF p match_two_words [OF conditional(2)]])
  then show ?thesis by (simp add: conditional(1))
next
  case yesterday
  have p: "lits ''yesterday'' \<in> set exclusion_patterns"
    by (simp add: exclusion_patterns_def)
  have "excluded (pre @ ''yesterday'' @ post)"
    by (rule excludedI [OF p match_lits_end])
  then show ?thesis by (simp add: yesterday)
qed

lemma upper_not_space: "c \<in> set (ascii_upper @ latin1_upper) \<Longrightarrow> \<not> is_space c"
  by (auto simp: ascii_upper_def latin1_upper_def is_space_def)

lemma lower_char_space: "is_space c \<Longrightarrow> lower_char c = c"
proof (cases "map_of (zip (ascii_upper @ latin1_upper) (ascii_lower @ latin1_lower)) c")
  case None
  then show ?thesis by (simp add: lower_char_def)
next
  case (Some l)
  then have "c \<in> set (ascii_upper @ latin1_upper)"
    by (blast dest: map_of_SomeD set_zip_leftD)
  moreover assume "is_space c"
  ultimately show ?thesis using upper_not_space by blast
qed

lemma py_lower_spaces: "spaces sp \<Longrightarrow> py_lower sp = sp"
  by (simp add: spaces_def py_lower_def list_all_iff lower_char_space map_idI)

lemma py_lower_append: "py_lower (xs @ ys) = py_lower xs @ py_lower ys"
  by (simp add: py_lower_def)

lemmas case_tables = lower_char_def ascii_upper_def ascii_lower_def latin1_upper_def
  latin1_lower_def

lemma py_lower_phrase: "exclusion_phrase w \<Longrightarrow> py_lower w = w"
proof (induction rule: exclusion_phrase.induct)
  case (hedge m v sp)
  have "py_lower m = m"
    using hedge(1) by (auto simp: hedge_modals_def py_lower_def case_tables)
  moreover have "py_lower v = v"
    using hedge(2) by (auto simp: hedge_verb_words_def py_lower_def case_tables)
  ultimately show ?case using hedge(3) by (simp add: py_lower_append py_lower_spaces)
next
  case (two_words a b sp)
  have "py_lower a = a \<and> py_lower b = b"
    using two_words(1) by (auto simp: two_word_phrases_def py_lower_def case_tables)
  then show ?case using two_words(2) by (simp add: py_lower_append py_lower_spaces)
next
  case (analyst sp)
  have "py_lower ''analyst'' = ''analyst''" "py_lower ''predict'' = ''predict''"
    by (simp_all add: py_lower_def case_tables)
  then show ?case using analyst by (simp only: py_lower_append py_lower_spaces)
next
  case (analysts sp)
  have "py_lower ''analysts'' = ''analysts''" "py_lower ''predict'' = ''predict''"
    by (simp_all add: py_lower_def case_tables)
  then show ?case using analysts by (simp only: py_lower_append py_lower_spaces)
next
  case (conditional sp)
  have "py_lower ''if'' = ''if''"
    by (simp add: py_lower_def case_tables)
  then show ?case using conditional by (simp only: py_lower_append py_lower_spaces)
next
  case yesterday
  show ?case by (simp add: py_lower_def case_tables)
qed

section \<open>Claims about the store and the cycles\<close>

text \<open>
  C2. Once the stored status of a prediction is HIT, PARTIAL or MISS, no later cycle
  changes it: in a store whose keys and URLs are distinct, a prediction whose stored status
  is not PENDING has the same stored status after any sequence of refresh and collection
  cycles; a refresh cycle selects only rows whose status is PENDING, and that prediction is
  never among the rows it selects.
\<close>

theorem terminal_status_never_rewritten:
  assumes "store_ok db" "lookup_status db i = Some s" "s \<noteq> PENDING"
  shows "lookup_status (run_cycles cs db) i = Some s
         \<and> list_all (\<lambda>a. status a = PENDING) (get_pending_articles (run_cycles cs db))
         \<and> i \<notin> art_id ` set (get_pending_articles (run_cycles cs db))"
proof -
  from assms obtain a where a: "a \<in> set (articles db)" "art_id a = i" "status a = s"
    by (auto simp: lookup_status_Some_iff)
  with assms have keep: "store_ok (run_cycles cs db)" "a \<in> set (articles (run_cycles cs db))"
    using run_cycles_keeps_terminal [of db a cs] by auto
  then have 1: "lookup_status (run_cycles cs db) i = Some s"
    using a by (auto simp: lookup_status_Some_iff)
  have 2: "list_all (\<lambda>a. status a = PENDING) (get_pending_articles (run_cycles cs db))"
    by (simp add: get_pending_articles_def list_all_iff)
  have 3: "i \<notin> art_id ` set (get_pending_articles (run_cycles cs db))"
    using terminal_not_pending_id [OF keep] a assms(3) by simp
  from 1 2 3 show ?thesis by simp
qed

text \<open>
  The AAPL prediction was classified HIT intraday at +23%. A refresh after the close, when
  AAPL stands at -10%, leaves it HIT, while the pending NVDA prediction becomes MISS.
\<close>

theorem terminal_status_never_rewritten_witness:
  "store_ok morning_db \<and> lookup_status morning_db 1 = Some HIT \<and> HIT \<noteq> PENDING
   \<and> lookup_status (run_cycles [Refresh closing_feed True] morning_db) 1 = Some HIT
   \<and> lookup_status (run_cycles [Refresh closing_feed True] morning_db) 2 = Some MISS"
proof -
  have h: "lookup_status morning_db 1 = Some HIT"
    by (simp add: lookup_status_def morning_db_value stored_row_def)
  have other: "lookup_status (run_cycles [Refresh closing_feed True] morning_db) 2 = Some MISS"
    by (simp add: lookup_status_def morning_db_value eval_defs)
  show ?thesis
    using terminal_status_never_rewritten [OF store_ok_morning_db h, of "[Refresh closing_feed True]"]
      store_ok_morning_db h other
    by simp
qed









section \<open>Claims about the extractor\<close>

text \<open>
  C4. A text that contains an exclusion phrase (a hedge such as "could surge", "expected
  to", "analysts predict", "price target", or a stale reference such as "yesterday", "last
  week", "last month", "last quarter", "surged last", "dropped last"), in lower case or,
  after \<open>lower()\<close>, in any case, makes \<open>extract_ticker_and_percentage\<close> return \<open>None\<close>: the
  exclusion test comes first, so no movement pattern is tried.
\<close>

theorem exclusion_phrase_vetoes:
  assumes "exclusion_phrase w" "py_lower text = pre @ w @ post \<or> text = pre @ w @ post"
  shows "extract_ticker_and_percentage text = None"
proof -
  have "\<exists>pre' post'. py_lower text = pre' @ w @ post'"
    using assms(2)
  proof
    assume "py_lower text = pre @ w @ post"
    then show ?thesis by blast
  next
    assume "text = pre @ w @ post"
    then have "py_lower text = py_lower pre @ w @ py_lower post"
      by (simp add: py_lower_append py_lower_phrase [OF assms(1)])
    then show ?thesis by blast
  qed
  then obtain pre' post' where "py_lower text = pre' @ w @ post'" by blast
  then have "excluded (py_lower text)"
    using exclusion_phrase_excluded [OF assms(1), of pre' post'] by simp
  then show ?thesis
    by (simp add: extract_ticker_and_percentage_def)
qed

text \<open>
  Without the exclusion test the first movement pattern would find the claim (AAPL, 25,
  up) in the headline below; the word "Yesterday" vetoes it.
\<close>

lemma movement_without_veto:
  "first_claim movement_patterns ''AAPL surges 25% after rising Yesterday''
     = Some (''AAPL'', 25, ''up'')"
  by code_simp

theorem exclusion_phrase_vetoes_witness:
  "exclusion_phrase ''yesterday''
   \<and> py_lower ''AAPL surges 25% after rising Yesterday''
       = ''aapl surges 25% after rising '' @ ''yesterday'' @ []
   \<and> extract_ticker_and_percentage ''AAPL surges 25% after rising Yesterday'' = None"
proof -
  have p: "exclusion_phrase ''yesterday''"
    by (rule exclusion_phrase.yesterday)
  have l: "py_lower ''AAPL surges 25% after rising Yesterday''
       = ''aapl surges 25% after rising '' @ ''yesterday'' @ []"
    by code_simp
  show ?thesis
    using exclusion_phrase_vetoes [OF p disjI1 [OF l]] p l by simp
qed

text \<open>The examples of section 8 of the specification.\<close>

lemma extract_surges: "extract_ticker_and_percentage ''AAPL surges 25% after earnings'' = Some (''AAPL'', 25, ''up'')"
  by code_simp

lemma extract_plunges: "extract_ticker_and_percentage ''XYZ plunges 22% on guidance cut'' = Some (''XYZ'', -22, ''down'')"
  by code_simp

lemma extract_below_threshold: "extract_ticker_and_percentage ''TSLA surges 10%'' = None"
  by code_simp

end
